theory Spec2Isabelle
  imports Main "HOL-Library.AList"
begin

section \<open>Events and raw notifications\<close>

text \<open>
  The event classes of \<open>watchdog.events\<close> that \<open>inotify_observer.py\<close> constructs: the
  created, deleted and modified events carry one path, the moved events the source and
  the destination path.
\<close>

datatype event =
    DirMovedEvent string string
  | DirDeletedEvent string
  | DirCreatedEvent string
  | DirModifiedEvent string
  | FileMovedEvent string string
  | FileDeletedEvent string
  | FileCreatedEvent string
  | FileModifiedEvent string

text \<open>
  The notification kinds the specification speaks of, by pyinotify's names. The record is
  the part of a pyinotify event that the dispatcher reads. pyinotify sets
  \<open>src_pathname\<close> on an \<open>IN_MOVED_TO\<close> event only when the \<open>IN_MOVED_FROM\<close> half with the
  same cookie was seen, so the attribute is optional.
\<close>

datatype maskname =
  IN_CREATE | IN_DELETE | IN_CLOSE_WRITE | IN_ATTRIB | IN_MOVED_FROM | IN_MOVED_TO

record raw_event =
  maskname :: maskname
  pathname :: string
  src_pathname :: "string option"
  dir :: bool

datatype py_error =
  ValueError | TypeError | KeyError | AttributeError | NameError | OSError | RuntimeError

section \<open>The dispatcher: \<open>_ProcessEventDispatcher\<close>\<close>

record 'h dispatcher =
  event_handler :: 'h
  is_recursive :: bool

text \<open>
  \<open>my_init\<close>: both keyword arguments are given at the only call (in \<open>schedule\<close>), so
  \<open>check_kwargs\<close> passes there.
\<close>

definition my_init :: "'h \<Rightarrow> bool \<Rightarrow> 'h dispatcher" where
  "my_init handler recursive = \<lparr>event_handler = handler, is_recursive = recursive\<rparr>"

text \<open>
  \<open>self.event_handler.dispatch(ev)\<close>: the effect is the delivery of \<open>ev\<close> to the handler.
  Each method returns the deliveries it makes, in order, as pairs of handler and event.
\<close>

definition dispatch :: "'h dispatcher \<Rightarrow> event \<Rightarrow> ('h \<times> event) list" where
  "dispatch self ev = [(event_handler self, ev)]"

text \<open>
  \<open>absolute_path\<close> is a function of \<open>watchdog.utils\<close>; it is a parameter of the methods
  that call it.
\<close>

definition process_IN_CREATE ::
  "(string \<Rightarrow> string) \<Rightarrow> 'h dispatcher \<Rightarrow> raw_event \<Rightarrow> ('h \<times> event) list" where
  "process_IN_CREATE absolute_path self e =
     (let src_path = absolute_path (pathname e) in
      if dir e then dispatch self (DirCreatedEvent src_path)
      else dispatch self (FileCreatedEvent src_path))"

definition process_IN_DELETE ::
  "(string \<Rightarrow> string) \<Rightarrow> 'h dispatcher \<Rightarrow> raw_event \<Rightarrow> ('h \<times> event) list" where
  "process_IN_DELETE absolute_path self e =
     (let src_path = absolute_path (pathname e) in
      if dir e then dispatch self (DirDeletedEvent src_path)
      else dispatch self (FileDeletedEvent src_path))"

definition process_IN_CLOSE_WRITE ::
  "(string \<Rightarrow> string) \<Rightarrow> 'h dispatcher \<Rightarrow> raw_event \<Rightarrow> ('h \<times> event) list" where
  "process_IN_CLOSE_WRITE absolute_path self e =
     (let src_path = absolute_path (pathname e) in
      if dir e then dispatch self (DirModifiedEvent src_path)
      else dispatch self (FileModifiedEvent src_path))"

definition process_IN_ATTRIB ::
  "(string \<Rightarrow> string) \<Rightarrow> 'h dispatcher \<Rightarrow> raw_event \<Rightarrow> ('h \<times> event) list" where
  "process_IN_ATTRIB absolute_path self e = process_IN_CLOSE_WRITE absolute_path self e"

text \<open>
  \<open>process_IN_MOVED_TO\<close>. The helper \<open>get_moved_events_for\<close> of \<open>watchdog.events\<close> is a
  parameter (\<open>moved_events_for\<close>, called with \<open>recursive=True\<close>). Reading
  \<open>event.src_pathname\<close> on an event that has none raises \<open>AttributeError\<close>, before
  anything is dispatched.
\<close>

definition process_IN_MOVED_TO ::
  "(string \<Rightarrow> string) \<Rightarrow> (string \<Rightarrow> string \<Rightarrow> event list) \<Rightarrow>
   'h dispatcher \<Rightarrow> raw_event \<Rightarrow> py_error + ('h \<times> event) list" where
  "process_IN_MOVED_TO absolute_path moved_events_for self e =
     (case src_pathname e of
        None \<Rightarrow> Inl AttributeError
      | Some sp \<Rightarrow>
          (let src_path = absolute_path sp;
               dest_path = absolute_path (pathname e)
           in Inr
             (if dir e then
                (if is_recursive self
                 then concat (map (dispatch self) (moved_events_for src_path dest_path))
                 else [])
                @ dispatch self (DirMovedEvent src_path dest_path)
              else dispatch self (FileMovedEvent src_path dest_path))))"

text \<open>
  Modelled from the spec: \<open>get_moved_events_for\<close> of \<open>watchdog.events\<close> is not among the
  sources. Section 4.2 of the specification: given the old and the new directory path it
  produces one moved event for every entry that was present under the old path
  immediately before the move, with the old prefix of the entry's path replaced by the
  new one. The entries (path, is a directory) are the snapshot the specification asks
  for; it is the first argument.
\<close>

definition get_moved_events_for ::
  "(string \<times> bool) list \<Rightarrow> string \<Rightarrow> string \<Rightarrow> event list" where
  "get_moved_events_for descendants src_dir_path dest_dir_path =
     map (\<lambda>(p, is_dir).
            if is_dir then DirMovedEvent p (dest_dir_path @ drop (length src_dir_path) p)
            else FileMovedEvent p (dest_dir_path @ drop (length src_dir_path) p))
         descendants"

text \<open>
  The class defines no method for \<open>IN_MOVED_FROM\<close>; pyinotify's \<open>ProcessEvent\<close> then
  runs the inherited \<open>process_default\<close>, which does nothing. \<open>process_event\<close> is the
  method selection of \<open>ProcessEvent.__call__\<close> over the methods of the class.
\<close>

definition process_default :: "'h dispatcher \<Rightarrow> raw_event \<Rightarrow> ('h \<times> event) list" where
  "process_default self e = []"

definition process_event ::
  "(string \<Rightarrow> string) \<Rightarrow> (string \<Rightarrow> string \<Rightarrow> event list) \<Rightarrow>
   'h dispatcher \<Rightarrow> raw_event \<Rightarrow> py_error + ('h \<times> event) list" where
  "process_event absolute_path moved_events_for self e =
     (case maskname e of
        IN_CREATE \<Rightarrow> Inr (process_IN_CREATE absolute_path self e)
      | IN_DELETE \<Rightarrow> Inr (process_IN_DELETE absolute_path self e)
      | IN_CLOSE_WRITE \<Rightarrow> Inr (process_IN_CLOSE_WRITE absolute_path self e)
      | IN_ATTRIB \<Rightarrow> Inr (process_IN_ATTRIB absolute_path self e)
      | IN_MOVED_TO \<Rightarrow> process_IN_MOVED_TO absolute_path moved_events_for self e
      | IN_MOVED_FROM \<Rightarrow> Inr (process_default self e))"

section \<open>The observer: \<open>InotifyObserver\<close>\<close>

text \<open>
  The values a caller can pass as \<open>paths\<close>: \<open>None\<close> (the default), a string, a number, or
  a list of values. \<open>truthy\<close> is Python's truth value, the negation of \<open>not paths\<close>.
\<close>

datatype py_value = PyNone | PyStr string | PyInt int | PyList "py_value list"

fun truthy :: "py_value \<Rightarrow> bool" where
  "truthy PyNone = False"
| "truthy (PyStr s) = (s \<noteq> [])"
| "truthy (PyInt n) = (n \<noteq> 0)"
| "truthy (PyList xs) = (xs \<noteq> [])"

text \<open>
  pyinotify's \<open>WatchManager\<close>, the kernel side: a table from watch descriptor to watched
  path. \<open>add_watch\<close> watches the path, and with \<open>rec\<close> the directories below it
  (\<open>subdirs\<close>, the file system at the time of the call, is a parameter); it returns the
  dictionary from each path to its descriptor. The kernel answers a path it already
  watches with the descriptor it has. \<open>rm_watch\<close> removes the descriptors it is given.
  With pyinotify's default \<open>quiet=True\<close> neither raises. The paths given are taken to
  exist, so that every watch is granted; \<open>auto_add\<close> concerns later notifications and
  has no effect on the call.
\<close>

record watch_manager =
  next_wd :: nat
  watches :: "(nat \<times> string) list"

definition add_watch_one :: "watch_manager \<Rightarrow> string \<Rightarrow> nat \<times> watch_manager" where
  "add_watch_one w path =
     (case find (\<lambda>(wd, p). p = path) (watches w) of
        Some (wd, p) \<Rightarrow> (wd, w)
      | None \<Rightarrow>
          (next_wd w,
           w\<lparr>next_wd := Suc (next_wd w), watches := watches w @ [(next_wd w, path)]\<rparr>))"

fun add_watch_all ::
  "watch_manager \<Rightarrow> string list \<Rightarrow> (string \<times> nat) list \<Rightarrow> (string \<times> nat) list \<times> watch_manager" where
  "add_watch_all w [] ret = (ret, w)"
| "add_watch_all w (p # ps) ret =
     (let (wd, w') = add_watch_one w p in add_watch_all w' ps (AList.update p wd ret))"

definition add_watch ::
  "(string \<Rightarrow> string list) \<Rightarrow> watch_manager \<Rightarrow> string \<Rightarrow> bool \<Rightarrow>
   (string \<times> nat) list \<times> watch_manager" where
  "add_watch subdirs w path rec =
     add_watch_all w (path # (if rec then subdirs path else [])) []"

definition rm_watch :: "watch_manager \<Rightarrow> nat list \<Rightarrow> watch_manager" where
  "rm_watch w wds = w\<lparr>watches := filter (\<lambda>(wd, p). wd \<notin> set wds) (watches w)\<rparr>"

text \<open>\<open>_Rule\<close>: the notifier is held by its identity, \<open>descriptors\<close> is a dictionary.\<close>

record Rule =
  name :: string
  notifier :: nat
  descriptors :: "(string \<times> nat) list"

text \<open>
  The observer's fields \<open>_wm\<close>, \<open>_notifiers\<close> and \<open>_name_to_rule\<close> (a dictionary, kept as
  an association list with distinct keys). A \<open>ThreadedNotifier\<close> is an object: its
  identity is a number taken from \<open>next_notifier\<close>, \<open>notifier_dispatcher\<close> holds the
  dispatcher it was built with, and \<open>started\<close> and \<open>stopped\<close> are the notifiers whose
  \<open>start()\<close> and \<open>stop()\<close> have been called, whatever came of the call. The lock and the
  interval are left out: the model is sequential.
\<close>

record 'h observer =
  wm :: watch_manager
  notifiers :: "nat set"
  name_to_rule :: "(string \<times> Rule) list"
  next_notifier :: nat
  notifier_dispatcher :: "(nat \<times> 'h dispatcher) list"
  started :: "nat set"
  stopped :: "nat set"

definition observer_init :: "'h observer" where
  "observer_init =
     \<lparr>wm = \<lparr>next_wd = 1, watches = []\<rparr>, notifiers = {}, name_to_rule = [],
      next_notifier = 0, notifier_dispatcher = [], started = {}, stopped = {}\<rparr>"



text \<open>
  The loop of \<open>schedule\<close> over the paths (lines 145 to 149). \<open>descs\<close> is the local
  variable \<open>descriptors\<close>: unbound before the first iteration, assigned in each.
  \<open>real_absolute_path\<close> of \<open>watchdog.utils\<close> is a parameter.
\<close>

fun schedule_paths ::
  "(string \<Rightarrow> string) \<Rightarrow> (string \<Rightarrow> string list) \<Rightarrow> bool \<Rightarrow> py_value list \<Rightarrow>
   watch_manager \<Rightarrow> (string \<times> nat) list option \<Rightarrow>
   (py_error + (string \<times> nat) list option) \<times> watch_manager" where
  "schedule_paths real_absolute_path subdirs recursive [] w descs = (Inr descs, w)"
| "schedule_paths real_absolute_path subdirs recursive (path # paths) w descs =
     (case path of
        PyStr p \<Rightarrow>
          (let (d, w') = add_watch subdirs w (real_absolute_path p) recursive
           in schedule_paths real_absolute_path subdirs recursive paths w' (Some d))
      | _ \<Rightarrow> (Inl TypeError, w))"

text \<open>
  \<open>schedule\<close>. The result is the exception raised, if any, and the observer as the call
  leaves it. A value that is not a list cannot be iterated: \<open>for path in paths\<close> raises
  \<open>TypeError\<close> for it.
\<close>

definition schedule ::
  "(string \<Rightarrow> string) \<Rightarrow> (string \<Rightarrow> string list) \<Rightarrow> string \<Rightarrow> 'h \<Rightarrow> py_value \<Rightarrow> bool \<Rightarrow>
   'h observer \<Rightarrow> (py_error + unit) \<times> 'h observer" where
  "schedule real_absolute_path subdirs nm handler paths recursive self =
     (if \<not> truthy paths then (Inl ValueError, self)
      else
        (let paths1 = (case paths of PyStr s \<Rightarrow> PyList [paths] | _ \<Rightarrow> paths);
             dispatcher = my_init handler recursive;
             n = next_notifier self;
             self1 = self\<lparr>next_notifier := Suc n,
                          notifier_dispatcher := (n, dispatcher) # notifier_dispatcher self,
                          notifiers := insert n (notifiers self)\<rparr>
         in case paths1 of
              PyList ps \<Rightarrow>
                (case schedule_paths real_absolute_path subdirs recursive ps (wm self1) None of
                   (Inl err, w) \<Rightarrow> (Inl err, self1\<lparr>wm := w\<rparr>)
                 | (Inr None, w) \<Rightarrow> (Inl NameError, self1\<lparr>wm := w\<rparr>)
                 | (Inr (Some d), w) \<Rightarrow>
                     (Inr (),
                      self1\<lparr>wm := w,
                            name_to_rule :=
                              AList.update nm \<lparr>name = nm, notifier = n, descriptors = d\<rparr>
                                (name_to_rule self1),
                            started := insert n (started self1)\<rparr>))
            | _ \<Rightarrow> (Inl TypeError, self1)))"

text \<open>
  \<open>unschedule\<close>: with no names, \<open>rm_watch\<close> on the descriptors of every rule of the
  registry; otherwise, for each name in turn, the lookup \<open>self._name_to_rule[name]\<close>
  (\<open>KeyError\<close> when the name is missing) and \<open>rm_watch\<close> on the descriptors of the rule.
\<close>

fun unschedule_names ::
  "string list \<Rightarrow> (string \<times> Rule) list \<Rightarrow> watch_manager \<Rightarrow> (py_error + unit) \<times> watch_manager" where
  "unschedule_names [] reg w = (Inr (), w)"
| "unschedule_names (n # ns) reg w =
     (case map_of reg n of
        None \<Rightarrow> (Inl KeyError, w)
      | Some r \<Rightarrow> unschedule_names ns reg (rm_watch w (map snd (descriptors r))))"

definition unschedule :: "string list \<Rightarrow> 'h observer \<Rightarrow> (py_error + unit) \<times> 'h observer" where
  "unschedule names self =
     (if names = [] then
        (Inr (),
         self\<lparr>wm := fold (\<lambda>(n, r) w. rm_watch w (map snd (descriptors r)))
                        (name_to_rule self) (wm self)\<rparr>)
      else
        (let (res, w) = unschedule_names names (name_to_rule self) (wm self)
         in (res, self\<lparr>wm := w\<rparr>)))"


text \<open>
  An example: the observer after \<open>schedule("r", 7, ["/a"])\<close> on a new observer, with
  handler 7, where \<open>/a\<close> is a directory that is not watched yet.
\<close>

definition one_rule_observer :: "nat observer" where
  "one_rule_observer =
     \<lparr>wm = \<lparr>next_wd = 2, watches = [(1, ''/a'')]\<rparr>, notifiers = {0},
      name_to_rule = [(''r'', \<lparr>name = ''r'', notifier = 0, descriptors = [(''/a'', 1)]\<rparr>)],
      next_notifier = 1,
      notifier_dispatcher = [(0, \<lparr>event_handler = 7, is_recursive = False\<rparr>)],
      started = {0}, stopped = {}\<rparr>"

section \<open>Translation of notifications\<close>

lemma concat_dispatch:
  "concat (map (dispatch self) evs) = map (Pair (event_handler self)) evs"
  by (induction evs) (simp_all add: dispatch_def)

lemma get_moved_events_for_nth:
  "i < length ds \<Longrightarrow>
   get_moved_events_for ds src dest ! i =
     (if snd (ds ! i) then DirMovedEvent (fst (ds ! i)) (dest @ drop (length src) (fst (ds ! i)))
      else FileMovedEvent (fst (ds ! i)) (dest @ drop (length src) (fst (ds ! i))))"
  by (simp add: get_moved_events_for_def split: prod.splits)

text \<open>
  C1. A move notification for a directory on a recursive rule: the dispatcher delivers
  the events the synthesizer returns, whatever it is (\<open>gme\<close>), and then, last, the one
  moved event of the directory itself. With the synthesizer of the specification and
  \<open>ds\<close> the N entries that were below the old path, these are N moved events, one per
  entry and in the entries' order, each with the old directory prefix replaced by the
  new one. The notification carries both paths (\<open>src_pathname\<close> is set).
\<close>

theorem recursive_dir_move:
  assumes "src_pathname e = Some sp" and "dir e" and "is_recursive self"
  shows "process_IN_MOVED_TO ap gme self e =
           Inr (map (Pair (event_handler self)) (gme (ap sp) (ap (pathname e)))
                @ [(event_handler self, DirMovedEvent (ap sp) (ap (pathname e)))])
         \<and> process_IN_MOVED_TO ap (get_moved_events_for ds) self e =
           Inr (map (Pair (event_handler self)) (get_moved_events_for ds (ap sp) (ap (pathname e)))
                @ [(event_handler self, DirMovedEvent (ap sp) (ap (pathname e)))])
         \<and> length (get_moved_events_for ds (ap sp) (ap (pathname e))) = length ds
         \<and> (\<forall>i < length ds.
               get_moved_events_for ds (ap sp) (ap (pathname e)) ! i =
                 (if snd (ds ! i)
                  then DirMovedEvent (fst (ds ! i))
                         (ap (pathname e) @ drop (length (ap sp)) (fst (ds ! i)))
                  else FileMovedEvent (fst (ds ! i))
                         (ap (pathname e) @ drop (length (ap sp)) (fst (ds ! i)))))"
proof -
  have "process_IN_MOVED_TO ap g self e =
          Inr (map (Pair (event_handler self)) (g (ap sp) (ap (pathname e)))
               @ [(event_handler self, DirMovedEvent (ap sp) (ap (pathname e)))])" for g
    using assms by (simp add: process_IN_MOVED_TO_def concat_dispatch Let_def) (simp add: dispatch_def)
  moreover have "length (get_moved_events_for ds (ap sp) (ap (pathname e))) = length ds"
    by (simp add: get_moved_events_for_def)
  ultimately show ?thesis
    by (simp add: get_moved_events_for_nth)
qed

theorem recursive_dir_move_witness:
  "process_IN_MOVED_TO (\<lambda>p. p)
      (get_moved_events_for [(''/tmp/w/a.txt'', False), (''/tmp/w/b'', True)])
      \<lparr>event_handler = (7::nat), is_recursive = True\<rparr>
      \<lparr>maskname = IN_MOVED_TO, pathname = ''/tmp/w2'', src_pathname = Some ''/tmp/w'', dir = True\<rparr>
     = Inr [(7, FileMovedEvent ''/tmp/w/a.txt'' ''/tmp/w2/a.txt''),
            (7, DirMovedEvent ''/tmp/w/b'' ''/tmp/w2/b''),
            (7, DirMovedEvent ''/tmp/w'' ''/tmp/w2'')]"
  using recursive_dir_move [of
      "\<lparr>maskname = IN_MOVED_TO, pathname = ''/tmp/w2'', src_pathname = Some ''/tmp/w'', dir = True\<rparr>"
      "''/tmp/w''" "\<lparr>event_handler = (7::nat), is_recursive = True\<rparr>" "\<lambda>p. p"
      "get_moved_events_for [(''/tmp/w/a.txt'', False), (''/tmp/w/b'', True)]"
      "[(''/tmp/w/a.txt'', False), (''/tmp/w/b'', True)]"]
  by (simp add: get_moved_events_for_def)

text \<open>
  C2, as the claim states it, fails: for a \<open>MoveFrom\<close> notification the dispatcher
  delivers nothing, not a deleted event for the source path.
\<close>

theorem unmatched_move_from_counterexample:
  "process_event (\<lambda>p. p) (\<lambda>s d. [])
      \<lparr>event_handler = (7::nat), is_recursive = False\<rparr>
      \<lparr>maskname = IN_MOVED_FROM, pathname = ''/d/a'', src_pathname = None, dir = False\<rparr>
     = Inr [] \<and>
   process_event (\<lambda>p. p) (\<lambda>s d. [])
      \<lparr>event_handler = (7::nat), is_recursive = False\<rparr>
      \<lparr>maskname = IN_MOVED_FROM, pathname = ''/d/a'', src_pathname = None, dir = False\<rparr>
     \<noteq> Inr [(7, FileDeletedEvent ''/d/a'')]"
  by (simp add: process_event_def process_default_def)

text \<open>
  C2, amended. Every \<open>MoveFrom\<close> notification, whether or not a \<open>MoveTo\<close> with the same
  pairing key follows, is handled without error and delivers no event to the handler:
  the class has no method for it.
\<close>

theorem move_from_dispatches_nothing:
  "process_event ap gme self (e\<lparr>maskname := IN_MOVED_FROM\<rparr>) = Inr []"
  by (simp add: process_event_def process_default_def)

text \<open>
  C8, as the claim states it, fails: a \<open>MoveTo\<close> notification that carries no source
  path (the \<open>MoveFrom\<close> half was not seen) raises \<open>AttributeError\<close> on a rule that is not
  recursive, and no event is delivered.
\<close>

theorem single_moved_event_counterexample:
  "process_IN_MOVED_TO (\<lambda>p. p) (\<lambda>s d. [])
      \<lparr>event_handler = (7::nat), is_recursive = False\<rparr>
      \<lparr>maskname = IN_MOVED_TO, pathname = ''/d/b'', src_pathname = None, dir = False\<rparr>
     = Inl AttributeError \<and>
   process_event (\<lambda>p. p) (\<lambda>s d. [])
      \<lparr>event_handler = (7::nat), is_recursive = False\<rparr>
      \<lparr>maskname = IN_MOVED_TO, pathname = ''/d/b'', src_pathname = None, dir = False\<rparr>
     = Inl AttributeError"
  by (simp add: process_event_def process_IN_MOVED_TO_def)

text \<open>
  C8, amended. A move notification that carries both paths, on a rule that is not
  recursive or for a file on any rule, delivers exactly one event, the moved event from
  the old to the new path; the synthesizer \<open>gme\<close> takes no part in the result.
\<close>

theorem single_moved_event:
  assumes "src_pathname e = Some sp" and "\<not> is_recursive self \<or> \<not> dir e"
  shows "process_IN_MOVED_TO ap gme self e =
           Inr [(event_handler self,
                 if dir e then DirMovedEvent (ap sp) (ap (pathname e))
                 else FileMovedEvent (ap sp) (ap (pathname e)))]"
  using assms by (auto simp: process_IN_MOVED_TO_def dispatch_def)

theorem single_moved_event_witness:
  "process_IN_MOVED_TO (\<lambda>p. p) (get_moved_events_for [(''/d/a'', False)])
      \<lparr>event_handler = (7::nat), is_recursive = False\<rparr>
      \<lparr>maskname = IN_MOVED_TO, pathname = ''/d2'', src_pathname = Some ''/d'', dir = True\<rparr>
     = Inr [(7, DirMovedEvent ''/d'' ''/d2'')] \<and>
   process_IN_MOVED_TO (\<lambda>p. p) (get_moved_events_for [(''/d/a'', False)])
      \<lparr>event_handler = (7::nat), is_recursive = True\<rparr>
      \<lparr>maskname = IN_MOVED_TO, pathname = ''/d/b'', src_pathname = Some ''/d/a'', dir = False\<rparr>
     = Inr [(7, FileMovedEvent ''/d/a'' ''/d/b'')]"
  using single_moved_event [of
      "\<lparr>maskname = IN_MOVED_TO, pathname = ''/d2'', src_pathname = Some ''/d'', dir = True\<rparr>"
      "''/d''" "\<lparr>event_handler = (7::nat), is_recursive = False\<rparr>" "\<lambda>p. p"
      "get_moved_events_for [(''/d/a'', False)]"]
    single_moved_event [of
      "\<lparr>maskname = IN_MOVED_TO, pathname = ''/d/b'', src_pathname = Some ''/d/a'', dir = False\<rparr>"
      "''/d/a''" "\<lparr>event_handler = (7::nat), is_recursive = True\<rparr>" "\<lambda>p. p"
      "get_moved_events_for [(''/d/a'', False)]"]
  by simp

text \<open>
  C9. An attribute-change notification is translated exactly as a write-close
  notification with the same record is: one modified event at the notification's path,
  for a directory or for a file as the notification's \<open>dir\<close> flag says.
\<close>

theorem attrib_same_as_close_write:
  "process_IN_ATTRIB ap self e = process_IN_CLOSE_WRITE ap self e \<and>
   process_event ap gme self (e\<lparr>maskname := IN_ATTRIB\<rparr>) =
     process_event ap gme self (e\<lparr>maskname := IN_CLOSE_WRITE\<rparr>) \<and>
   process_IN_ATTRIB ap self e =
     [(event_handler self,
       if dir e then DirModifiedEvent (ap (pathname e)) else FileModifiedEvent (ap (pathname e)))]"
  by (simp add: process_IN_ATTRIB_def process_IN_CLOSE_WRITE_def process_event_def dispatch_def)

section \<open>Scheduling\<close>

lemma add_watch_one_keeps: "set (watches w) \<subseteq> set (watches (snd (add_watch_one w p)))"
  by (auto simp: add_watch_one_def split: option.splits)

lemma add_watch_all_keeps: "set (watches w) \<subseteq> set (watches (snd (add_watch_all w ps ret)))"
proof (induction ps arbitrary: w ret)
  case Nil
  then show ?case by simp
next
  case (Cons p ps)
  obtain wd w' where one: "add_watch_one w p = (wd, w')" by (cases "add_watch_one w p")
  have "set (watches w) \<subseteq> set (watches w')"
    using add_watch_one_keeps [of w p] one by simp
  moreover have "set (watches w') \<subseteq> set (watches (snd (add_watch_all w' ps (AList.update p wd ret))))"
    by (rule Cons.IH)
  ultimately show ?case using one by auto
qed

lemma add_watch_keeps: "set (watches w) \<subseteq> set (watches (snd (add_watch sd w p r)))"
  unfolding add_watch_def by (rule add_watch_all_keeps)

lemma schedule_paths_keeps:
  "set (watches w) \<subseteq> set (watches (snd (schedule_paths rap sd r ps w descs)))"
proof (induction ps arbitrary: w descs)
  case Nil
  then show ?case by simp
next
  case (Cons x ps)
  show ?case
  proof (cases x)
    case (PyStr p)
    obtain d w' where aw: "add_watch sd w (rap p) r = (d, w')" by (cases "add_watch sd w (rap p) r")
    have "set (watches w) \<subseteq> set (watches w')"
      using add_watch_keeps [of w sd "rap p" r] aw by simp
    moreover have "set (watches w') \<subseteq> set (watches (snd (schedule_paths rap sd r ps w' (Some d))))"
      by (rule Cons.IH)
    ultimately show ?thesis using PyStr aw by auto
  qed simp_all
qed

lemma schedule_paths_non_string:
  "\<exists>x \<in> set ps. \<forall>p. x \<noteq> PyStr p \<Longrightarrow> fst (schedule_paths rap sd r ps w descs) = Inl TypeError"
proof (induction ps arbitrary: w descs)
  case Nil
  then show ?case by simp
next
  case (Cons x ps)
  show ?case
  proof (cases x)
    case (PyStr p)
    with Cons.prems have "\<exists>x \<in> set ps. \<forall>p. x \<noteq> PyStr p" by auto
    then show ?thesis using PyStr Cons.IH by (simp split: prod.splits)
  qed simp_all
qed

lemma schedule_paths_strings:
  "\<forall>x \<in> set ps. \<exists>p. x = PyStr p \<Longrightarrow>
   \<exists>d. fst (schedule_paths rap sd r ps w descs) = Inr d \<and> (ps \<noteq> [] \<longrightarrow> d \<noteq> None) \<and> (ps = [] \<longrightarrow> d = descs)"
proof (induction ps arbitrary: w descs)
  case Nil
  then show ?case by simp
next
  case (Cons x ps)
  then obtain p where x: "x = PyStr p" by auto
  obtain d w' where aw: "add_watch sd w (rap p) r = (d, w')" by (cases "add_watch sd w (rap p) r")
  from Cons.prems have "\<forall>x \<in> set ps. \<exists>p. x = PyStr p" by simp
  from Cons.IH [OF this, of w' "Some d"] show ?case using x aw by (cases ps) auto
qed

lemma one_rule_observer_scheduled:
  "schedule (\<lambda>p. p) (\<lambda>p. []) ''r'' 7 (PyList [PyStr ''/a'']) False observer_init
     = (Inr (), one_rule_observer)"
  by (simp add: schedule_def observer_init_def one_rule_observer_def add_watch_def
        add_watch_one_def my_init_def)


text \<open>
  C10. A non-empty string given as \<open>paths\<close> is scheduled exactly as the list of that
  one string: same result, same observer afterwards.
\<close>

theorem schedule_single_string:
  "s \<noteq> [] \<Longrightarrow>
   schedule rap sd nm h (PyStr s) r self = schedule rap sd nm h (PyList [PyStr s]) r self"
  by (simp add: schedule_def)

theorem schedule_single_string_witness:
  "''/a'' \<noteq> [] \<and>
   schedule (\<lambda>p. p) (\<lambda>p. []) ''r'' (7::nat) (PyStr ''/a'') False observer_init
     = schedule (\<lambda>p. p) (\<lambda>p. []) ''r'' 7 (PyList [PyStr ''/a'']) False observer_init \<and>
   schedule (\<lambda>p. p) (\<lambda>p. []) ''r'' (7::nat) (PyStr ''/a'') False observer_init
     = (Inr (), one_rule_observer)"
  using schedule_single_string [of "''/a''" "\<lambda>p. p" "\<lambda>p. []" "''r''" "7::nat" False observer_init]
  by (simp add: one_rule_observer_scheduled)

lemma schedule_list:
  "ps \<noteq> [] \<Longrightarrow>
   schedule rap sd nm h (PyList ps) r s =
     (case schedule_paths rap sd r ps (wm s) None of
        (Inl err, w) \<Rightarrow>
          (Inl err,
           s\<lparr>next_notifier := Suc (next_notifier s),
              notifier_dispatcher := (next_notifier s, my_init h r) # notifier_dispatcher s,
              notifiers := insert (next_notifier s) (notifiers s), wm := w\<rparr>)
      | (Inr None, w) \<Rightarrow>
          (Inl NameError,
           s\<lparr>next_notifier := Suc (next_notifier s),
              notifier_dispatcher := (next_notifier s, my_init h r) # notifier_dispatcher s,
              notifiers := insert (next_notifier s) (notifiers s), wm := w\<rparr>)
      | (Inr (Some d), w) \<Rightarrow>
          (Inr (),
           s\<lparr>next_notifier := Suc (next_notifier s),
              notifier_dispatcher := (next_notifier s, my_init h r) # notifier_dispatcher s,
              notifiers := insert (next_notifier s) (notifiers s), wm := w,
              name_to_rule :=
                AList.update nm \<lparr>name = nm, notifier = next_notifier s, descriptors = d\<rparr>
                  (name_to_rule s),
              started := insert (next_notifier s) (started s)\<rparr>))"
  by (simp add: schedule_def Let_def split: prod.splits sum.splits option.splits)

text \<open>
  C3 at \<open>schedule("r", 7, ["/a", 5])\<close> on a new observer: the call raises \<open>TypeError\<close>,
  but only after a watch for \<open>/a\<close> has been created and the call's notifier, never
  started, has been added to the notifier set. The observer is not as it was.
\<close>

theorem schedule_raises_after_side_effects:
  "fst (schedule (\<lambda>p. p) (\<lambda>p. []) ''r'' (7::nat) (PyList [PyStr ''/a'', PyInt 5]) False observer_init)
     = Inl TypeError \<and>
   watches (wm (snd (schedule (\<lambda>p. p) (\<lambda>p. []) ''r'' (7::nat) (PyList [PyStr ''/a'', PyInt 5]) False
                      observer_init)))
     = [(1, ''/a'')] \<and>
   watches (wm (observer_init :: nat observer)) = [] \<and>
   notifiers (snd (schedule (\<lambda>p. p) (\<lambda>p. []) ''r'' (7::nat) (PyList [PyStr ''/a'', PyInt 5]) False
                     observer_init))
     = {0} \<and>
   started (snd (schedule (\<lambda>p. p) (\<lambda>p. []) ''r'' (7::nat) (PyList [PyStr ''/a'', PyInt 5]) False
                     observer_init))
     = {} \<and>
   notifiers (observer_init :: nat observer) = {}"
  by (simp add: schedule_def observer_init_def add_watch_def add_watch_one_def my_init_def)

text \<open>
  \<open>schedule\<close> with \<open>paths\<close> empty (\<open>None\<close>, an empty string, an empty list) raises
  \<open>ValueError\<close> before anything is created: the observer is as it was.
\<close>

theorem schedule_empty_paths:
  "\<not> truthy paths \<Longrightarrow> schedule rap sd nm h paths r s = (Inl ValueError, s)"
  by (simp add: schedule_def)

theorem schedule_empty_paths_witness:
  "\<not> truthy (PyList []) \<and>
   schedule (\<lambda>p. p) (\<lambda>p. []) ''r'' (7::nat) (PyList []) False one_rule_observer
     = (Inl ValueError, one_rule_observer)"
  using schedule_empty_paths [of "PyList []" "\<lambda>p. p" "\<lambda>p. []" "''r''" "7::nat" False one_rule_observer]
  by simp

text \<open>
  C6 at \<open>schedule("r", 7, ["/a", "/b"])\<close> on a new observer: both paths are watched, and
  the rule in the registry records the descriptor of \<open>/b\<close> only.
\<close>

theorem schedule_keeps_last_descriptors_only:
  "fst (schedule (\<lambda>p. p) (\<lambda>p. []) ''r'' (7::nat) (PyList [PyStr ''/a'', PyStr ''/b'']) False
          observer_init) = Inr () \<and>
   watches (wm (snd (schedule (\<lambda>p. p) (\<lambda>p. []) ''r'' (7::nat) (PyList [PyStr ''/a'', PyStr ''/b''])
          False observer_init))) = [(1, ''/a''), (2, ''/b'')] \<and>
   name_to_rule (snd (schedule (\<lambda>p. p) (\<lambda>p. []) ''r'' (7::nat) (PyList [PyStr ''/a'', PyStr ''/b''])
          False observer_init))
     = [(''r'', \<lparr>name = ''r'', notifier = 0, descriptors = [(''/b'', 2)]\<rparr>)]"
  by (simp add: schedule_def observer_init_def add_watch_def add_watch_one_def my_init_def)

lemma schedule_success:
  assumes "fst (schedule rap sd nm h paths r s) = Inr ()"
  shows "\<exists>d w. set (watches (wm s)) \<subseteq> set (watches w) \<and>
           snd (schedule rap sd nm h paths r s) =
             s\<lparr>next_notifier := Suc (next_notifier s),
                notifier_dispatcher := (next_notifier s, my_init h r) # notifier_dispatcher s,
                notifiers := insert (next_notifier s) (notifiers s), wm := w,
                name_to_rule :=
                  AList.update nm \<lparr>name = nm, notifier = next_notifier s, descriptors = d\<rparr>
                    (name_to_rule s),
                started := insert (next_notifier s) (started s)\<rparr>"
proof -
  have "\<exists>ps. ps \<noteq> [] \<and> schedule rap sd nm h paths r s = schedule rap sd nm h (PyList ps) r s"
  proof (cases paths)
    case PyNone
    with assms show ?thesis by (simp add: schedule_def)
  next
    case (PyStr x)
    with assms have "x \<noteq> []" by (auto simp: schedule_def split: if_splits)
    then have "schedule rap sd nm h paths r s = schedule rap sd nm h (PyList [PyStr x]) r s"
      using PyStr by (simp add: schedule_def)
    then show ?thesis by blast
  next
    case (PyInt n)
    with assms show ?thesis by (simp add: schedule_def Let_def split: if_splits)
  next
    case (PyList ps)
    with assms have "ps \<noteq> []" by (auto simp: schedule_def split: if_splits)
    with PyList show ?thesis by blast
  qed
  then obtain ps where ne: "ps \<noteq> []"
    and eq: "schedule rap sd nm h paths r s = schedule rap sd nm h (PyList ps) r s" by blast
  obtain res w where sp: "schedule_paths rap sd r ps (wm s) None = (res, w)"
    by (cases "schedule_paths rap sd r ps (wm s) None")
  have keeps: "set (watches (wm s)) \<subseteq> set (watches w)"
    using schedule_paths_keeps [of "wm s" rap sd r ps None] sp by simp
  from assms eq ne sp obtain d where "res = Inr (Some d)"
    by (auto simp: schedule_list split: sum.splits option.splits)
  with eq ne sp keeps show ?thesis
    by (simp add: schedule_list) blast
qed

text \<open>
  When \<open>schedule\<close> succeeds: given a list, exactly when the list is not empty and
  holds strings only.
\<close>

theorem schedule_succeeds_iff:
  "fst (schedule rap sd nm h (PyList ps) r s) = Inr () \<longleftrightarrow>
     ps \<noteq> [] \<and> (\<forall>x \<in> set ps. \<exists>p. x = PyStr p)"
proof (cases "ps = []")
  case True
  then show ?thesis by (simp add: schedule_def)
next
  case ne: False
  obtain res w where sp: "schedule_paths rap sd r ps (wm s) None = (res, w)"
    by (cases "schedule_paths rap sd r ps (wm s) None")
  show ?thesis
  proof (cases "\<forall>x \<in> set ps. \<exists>p. x = PyStr p")
    case True
    from schedule_paths_strings [OF True, of rap sd r "wm s" None] ne sp
    obtain d where "res = Inr (Some d)" by auto
    with ne sp True show ?thesis by (simp add: schedule_list)
  next
    case False
    then have "\<exists>x \<in> set ps. \<forall>p. x \<noteq> PyStr p" by blast
    from schedule_paths_non_string [OF this, of rap sd r "wm s" None] sp
    have "res = Inl TypeError" by simp
    with ne sp False show ?thesis by (simp add: schedule_list)
  qed
qed

theorem schedule_succeeds_iff_witness:
  "fst (schedule (\<lambda>p. p) (\<lambda>p. []) ''r'' (7::nat) (PyList [PyStr ''/a'']) False observer_init) = Inr () \<and>
   fst (schedule (\<lambda>p. p) (\<lambda>p. []) ''r'' (7::nat) (PyList [PyInt 5]) False observer_init) \<noteq> Inr ()"
  using schedule_succeeds_iff [of "\<lambda>p. p" "\<lambda>p. []" "''r''" "7::nat" "[PyStr ''/a'']" False observer_init]
    schedule_succeeds_iff [of "\<lambda>p. p" "\<lambda>p. []" "''r''" "7::nat" "[PyInt 5]" False observer_init]
  by simp

text \<open>
  C7. A successful \<open>schedule\<close> under a name that is in the registry replaces the entry
  of that name by the new rule (with the new notifier) and leaves the other entries
  and the order of names alone. Nothing of the prior rule is released or stopped:
  every kernel watch that existed is still there, the notifier set and the started
  notifiers only gain the new notifier, and the stopped notifiers are as before.
\<close>

theorem schedule_overwrites:
  assumes "map_of (name_to_rule s) nm = Some old"
    and "fst (schedule rap sd nm h paths r s) = Inr ()"
  shows "(\<exists>d. map_of (name_to_rule (snd (schedule rap sd nm h paths r s))) nm =
              Some \<lparr>name = nm, notifier = next_notifier s, descriptors = d\<rparr>)
       \<and> map fst (name_to_rule (snd (schedule rap sd nm h paths r s))) = map fst (name_to_rule s)
       \<and> (\<forall>k. k \<noteq> nm \<longrightarrow>
             map_of (name_to_rule (snd (schedule rap sd nm h paths r s))) k = map_of (name_to_rule s) k)
       \<and> set (watches (wm s)) \<subseteq> set (watches (wm (snd (schedule rap sd nm h paths r s))))
       \<and> notifiers (snd (schedule rap sd nm h paths r s)) = insert (next_notifier s) (notifiers s)
       \<and> started (snd (schedule rap sd nm h paths r s)) = insert (next_notifier s) (started s)
       \<and> stopped (snd (schedule rap sd nm h paths r s)) = stopped s"
proof -
  from schedule_success [OF assms(2)] obtain d w where
    keeps: "set (watches (wm s)) \<subseteq> set (watches w)" and
    s': "snd (schedule rap sd nm h paths r s) =
             s\<lparr>next_notifier := Suc (next_notifier s),
                notifier_dispatcher := (next_notifier s, my_init h r) # notifier_dispatcher s,
                notifiers := insert (next_notifier s) (notifiers s), wm := w,
                name_to_rule :=
                  AList.update nm \<lparr>name = nm, notifier = next_notifier s, descriptors = d\<rparr>
                    (name_to_rule s),
                started := insert (next_notifier s) (started s)\<rparr>"
    by blast
  have key: "nm \<in> set (map fst (name_to_rule s))"
    using assms(1) by (metis map_of_eq_None_iff option.distinct(1) set_map)
  have "map fst (name_to_rule (snd (schedule rap sd nm h paths r s))) = map fst (name_to_rule s)"
    using key by (simp add: s' update_keys)
  moreover have "\<exists>d. map_of (name_to_rule (snd (schedule rap sd nm h paths r s))) nm =
              Some \<lparr>name = nm, notifier = next_notifier s, descriptors = d\<rparr>"
    by (simp add: s' update_conv')
  moreover have "\<forall>k. k \<noteq> nm \<longrightarrow>
             map_of (name_to_rule (snd (schedule rap sd nm h paths r s))) k = map_of (name_to_rule s) k"
    by (simp add: s' update_conv')
  ultimately show ?thesis using keeps by (simp add: s')
qed

theorem schedule_overwrites_witness:
  "map_of (name_to_rule one_rule_observer) ''r''
     = Some \<lparr>name = ''r'', notifier = 0, descriptors = [(''/a'', 1)]\<rparr> \<and>
   fst (schedule (\<lambda>p. p) (\<lambda>p. []) ''r'' (8::nat) (PyList [PyStr ''/b'']) True one_rule_observer)
     = Inr () \<and>
   name_to_rule (snd (schedule (\<lambda>p. p) (\<lambda>p. []) ''r'' (8::nat) (PyList [PyStr ''/b'']) True
       one_rule_observer))
     = [(''r'', \<lparr>name = ''r'', notifier = 1, descriptors = [(''/b'', 2)]\<rparr>)] \<and>
   watches (wm (snd (schedule (\<lambda>p. p) (\<lambda>p. []) ''r'' (8::nat) (PyList [PyStr ''/b'']) True
       one_rule_observer)))
     = [(1, ''/a''), (2, ''/b'')] \<and>
   notifiers (snd (schedule (\<lambda>p. p) (\<lambda>p. []) ''r'' (8::nat) (PyList [PyStr ''/b'']) True
       one_rule_observer)) = {0, 1} \<and>
   started (snd (schedule (\<lambda>p. p) (\<lambda>p. []) ''r'' (8::nat) (PyList [PyStr ''/b'']) True
       one_rule_observer)) = {0, 1} \<and>
   stopped (snd (schedule (\<lambda>p. p) (\<lambda>p. []) ''r'' (8::nat) (PyList [PyStr ''/b'']) True
       one_rule_observer)) = {}"
proof -
  have h1: "map_of (name_to_rule one_rule_observer) ''r''
     = Some \<lparr>name = ''r'', notifier = 0, descriptors = [(''/a'', 1)]\<rparr>"
    by (simp add: one_rule_observer_def)
  have h2: "fst (schedule (\<lambda>p. p) (\<lambda>p. []) ''r'' (8::nat) (PyList [PyStr ''/b'']) True one_rule_observer)
     = Inr ()"
    by (simp add: schedule_def one_rule_observer_def add_watch_def add_watch_one_def my_init_def)
  have ev: "snd (schedule (\<lambda>p. p) (\<lambda>p. []) ''r'' (8::nat) (PyList [PyStr ''/b'']) True one_rule_observer)
     = \<lparr>wm = \<lparr>next_wd = 3, watches = [(1, ''/a''), (2, ''/b'')]\<rparr>, notifiers = {0, 1},
        name_to_rule = [(''r'', \<lparr>name = ''r'', notifier = 1, descriptors = [(''/b'', 2)]\<rparr>)],
        next_notifier = 2,
        notifier_dispatcher = [(1, \<lparr>event_handler = 8, is_recursive = True\<rparr>),
                               (0, \<lparr>event_handler = 7, is_recursive = False\<rparr>)],
        started = {0, 1}, stopped = {}\<rparr>"
    by (auto simp: schedule_def one_rule_observer_def add_watch_def add_watch_one_def my_init_def)
  show ?thesis
    using schedule_overwrites [OF h1 h2] h1 h2 by (simp add: ev)
qed

section \<open>Unscheduling and stopping\<close>


lemma rm_watch_twice:
  "rm_watch (w\<lparr>watches := filter P (watches w)\<rparr>) wds =
     w\<lparr>watches := filter (\<lambda>x. P x \<and> (case x of (wd, p) \<Rightarrow> wd \<notin> set wds)) (watches w)\<rparr>"
  by (simp add: rm_watch_def)

lemma unschedule_names_missing:
  "\<exists>n \<in> set ns. map_of reg n = None \<Longrightarrow> fst (unschedule_names ns reg w) = Inl KeyError"
  by (induction ns arbitrary: w) (auto split: option.splits)

lemma unschedule_names_found_aux:
  "\<forall>n \<in> set ns. map_of reg n \<noteq> None \<Longrightarrow>
   unschedule_names ns reg (w\<lparr>watches := filter P (watches w)\<rparr>) =
     (Inr (),
      w\<lparr>watches :=
          filter (\<lambda>x. P x \<and> (case x of (wd, p) \<Rightarrow>
                    \<forall>n \<in> set ns. \<forall>r. map_of reg n = Some r \<longrightarrow> wd \<notin> snd ` set (descriptors r)))
            (watches w)\<rparr>)"
proof (induction ns arbitrary: P)
  case Nil
  then show ?case by simp
next
  case (Cons n ns)
  then obtain r where r: "map_of reg n = Some r" by auto
  from Cons.prems have rest: "\<forall>n \<in> set ns. map_of reg n \<noteq> None" by simp
  have "filter (\<lambda>x. (P x \<and> (case x of (wd, p) \<Rightarrow> wd \<notin> set (map snd (descriptors r)))) \<and>
                  (case x of (wd, p) \<Rightarrow>
                    \<forall>n \<in> set ns. \<forall>r. map_of reg n = Some r \<longrightarrow> wd \<notin> snd ` set (descriptors r)))
          (watches w)
        = filter (\<lambda>x. P x \<and> (case x of (wd, p) \<Rightarrow>
                    \<forall>m \<in> set (n # ns). \<forall>r. map_of reg m = Some r \<longrightarrow> wd \<notin> snd ` set (descriptors r)))
          (watches w)"
    using r by (intro filter_cong) auto
  then show ?case
    using r Cons.IH [OF rest] by (simp add: rm_watch_twice)
qed

lemma unschedule_names_found:
  assumes "\<forall>n \<in> set ns. map_of reg n \<noteq> None"
  shows "unschedule_names ns reg w =
     (Inr (),
      w\<lparr>watches :=
          filter (\<lambda>(wd, p). \<forall>n \<in> set ns. \<forall>r. map_of reg n = Some r \<longrightarrow> wd \<notin> snd ` set (descriptors r))
            (watches w)\<rparr>)"
proof -
  have "w = w\<lparr>watches := filter (\<lambda>x. True) (watches w)\<rparr>" by simp
  then have "unschedule_names ns reg w =
      unschedule_names ns reg (w\<lparr>watches := filter (\<lambda>x. True) (watches w)\<rparr>)" by simp
  also have "\<dots> = (Inr (),
      w\<lparr>watches :=
          filter (\<lambda>x. True \<and> (case x of (wd, p) \<Rightarrow>
                    \<forall>n \<in> set ns. \<forall>r. map_of reg n = Some r \<longrightarrow> wd \<notin> snd ` set (descriptors r)))
            (watches w)\<rparr>)"
    by (rule unschedule_names_found_aux [OF assms])
  finally show ?thesis by (simp add: case_prod_unfold)
qed

lemma fold_rm_watch_aux:
  "fold (\<lambda>(n, r) w. rm_watch w (map snd (descriptors r))) reg (w\<lparr>watches := filter P (watches w)\<rparr>) =
     w\<lparr>watches :=
         filter (\<lambda>x. P x \<and> (case x of (wd, p) \<Rightarrow> \<forall>r \<in> snd ` set reg. wd \<notin> snd ` set (descriptors r)))
           (watches w)\<rparr>"
proof (induction reg arbitrary: P)
  case Nil
  then show ?case by simp
next
  case (Cons a reg)
  obtain n r where a: "a = (n, r)" by (cases a)
  have "filter (\<lambda>x. (P x \<and> (case x of (wd, p) \<Rightarrow> wd \<notin> set (map snd (descriptors r)))) \<and>
                  (case x of (wd, p) \<Rightarrow> \<forall>r \<in> snd ` set reg. wd \<notin> snd ` set (descriptors r)))
          (watches w)
        = filter (\<lambda>x. P x \<and> (case x of (wd, p) \<Rightarrow>
                    \<forall>r \<in> snd ` set (a # reg). wd \<notin> snd ` set (descriptors r)))
          (watches w)"
    using a by (intro filter_cong) auto
  then show ?case
    using a Cons.IH by (simp add: rm_watch_twice)
qed

lemma fold_rm_watch:
  "fold (\<lambda>(n, r) w. rm_watch w (map snd (descriptors r))) reg w =
     w\<lparr>watches :=
         filter (\<lambda>(wd, p). \<forall>r \<in> snd ` set reg. wd \<notin> snd ` set (descriptors r)) (watches w)\<rparr>"
proof -
  have "w = w\<lparr>watches := filter (\<lambda>x. True) (watches w)\<rparr>" by simp
  then have "fold (\<lambda>(n, r) w. rm_watch w (map snd (descriptors r))) reg w =
      fold (\<lambda>(n, r) w. rm_watch w (map snd (descriptors r))) reg
        (w\<lparr>watches := filter (\<lambda>x. True) (watches w)\<rparr>)" by simp
  also have "\<dots> = w\<lparr>watches :=
         filter (\<lambda>x. True \<and> (case x of (wd, p) \<Rightarrow> \<forall>r \<in> snd ` set reg. wd \<notin> snd ` set (descriptors r)))
           (watches w)\<rparr>"
    by (rule fold_rm_watch_aux)
  finally show ?thesis by (simp add: case_prod_unfold)
qed

lemma unschedule_frame:
  "name_to_rule (snd (unschedule names s)) = name_to_rule s \<and>
   notifiers (snd (unschedule names s)) = notifiers s \<and>
   started (snd (unschedule names s)) = started s \<and>
   stopped (snd (unschedule names s)) = stopped s"
  by (simp add: unschedule_def split: prod.splits)

text \<open>
  C4, as the claim states it, fails: after \<open>unschedule("r")\<close> the rule is still in
  the registry and its notifier has not been stopped.
\<close>

theorem unschedule_counterexample:
  "fst (unschedule [''r''] one_rule_observer) = Inr () \<and>
   name_to_rule (snd (unschedule [''r''] one_rule_observer))
     = [(''r'', \<lparr>name = ''r'', notifier = 0, descriptors = [(''/a'', 1)]\<rparr>)] \<and>
   notifier \<lparr>name = ''r'', notifier = 0, descriptors = [(''/a'', 1)]\<rparr>
     \<notin> stopped (snd (unschedule [''r''] one_rule_observer)) \<and>
   watches (wm (snd (unschedule [''r''] one_rule_observer))) = []"
  by (simp add: unschedule_def one_rule_observer_def rm_watch_def)

text \<open>
  C4, amended. \<open>unschedule\<close> with names raises \<open>KeyError\<close> when one of them is not in
  the registry. When every name is in the registry (and with no names, which targets
  every rule), it succeeds and removes from the kernel exactly the watch descriptors
  recorded in the targeted rules. The registry, the notifier set and the started and
  stopped notifiers are as before the call.
\<close>

theorem unschedule_removes_recorded_watches:
  "(names \<noteq> [] \<and> (\<exists>n \<in> set names. map_of (name_to_rule s) n = None) \<longrightarrow>
      fst (unschedule names s) = Inl KeyError) \<and>
   ((\<forall>n \<in> set names. map_of (name_to_rule s) n \<noteq> None) \<longrightarrow>
      fst (unschedule names s) = Inr () \<and>
      watches (wm (snd (unschedule names s))) =
        filter (\<lambda>(wd, p). \<forall>r. (if names = [] then r \<in> snd ` set (name_to_rule s)
                                 else \<exists>n \<in> set names. map_of (name_to_rule s) n = Some r)
                               \<longrightarrow> wd \<notin> snd ` set (descriptors r))
          (watches (wm s))) \<and>
   name_to_rule (snd (unschedule names s)) = name_to_rule s \<and>
   notifiers (snd (unschedule names s)) = notifiers s \<and>
   started (snd (unschedule names s)) = started s \<and>
   stopped (snd (unschedule names s)) = stopped s"
proof -
  have missing: "names \<noteq> [] \<and> (\<exists>n \<in> set names. map_of (name_to_rule s) n = None) \<longrightarrow>
      fst (unschedule names s) = Inl KeyError"
  proof
    assume a: "names \<noteq> [] \<and> (\<exists>n \<in> set names. map_of (name_to_rule s) n = None)"
    then have "fst (unschedule_names names (name_to_rule s) (wm s)) = Inl KeyError"
      by (simp add: unschedule_names_missing)
    with a show "fst (unschedule names s) = Inl KeyError"
      by (simp add: unschedule_def case_prod_unfold)
  qed
  have found: "(\<forall>n \<in> set names. map_of (name_to_rule s) n \<noteq> None) \<longrightarrow>
      fst (unschedule names s) = Inr () \<and>
      watches (wm (snd (unschedule names s))) =
        filter (\<lambda>(wd, p). \<forall>r. (if names = [] then r \<in> snd ` set (name_to_rule s)
                                 else \<exists>n \<in> set names. map_of (name_to_rule s) n = Some r)
                               \<longrightarrow> wd \<notin> snd ` set (descriptors r))
          (watches (wm s))"
  proof (cases "names = []")
    case True
    have "filter (\<lambda>(wd, p). \<forall>r \<in> snd ` set (name_to_rule s). wd \<notin> snd ` set (descriptors r))
            (watches (wm s))
          = filter (\<lambda>(wd, p). \<forall>r. r \<in> snd ` set (name_to_rule s) \<longrightarrow> wd \<notin> snd ` set (descriptors r))
            (watches (wm s))"
      by (intro filter_cong) auto
    then show ?thesis using True by (simp add: unschedule_def fold_rm_watch)
  next
    case False
    show ?thesis
    proof
      assume all: "\<forall>n \<in> set names. map_of (name_to_rule s) n \<noteq> None"
      have "filter (\<lambda>(wd, p). \<forall>n \<in> set names. \<forall>r. map_of (name_to_rule s) n = Some r
                       \<longrightarrow> wd \<notin> snd ` set (descriptors r)) (watches (wm s))
          = filter (\<lambda>(wd, p). \<forall>r. (\<exists>n \<in> set names. map_of (name_to_rule s) n = Some r)
                       \<longrightarrow> wd \<notin> snd ` set (descriptors r)) (watches (wm s))"
        by (intro filter_cong) auto
      then show "fst (unschedule names s) = Inr () \<and>
        watches (wm (snd (unschedule names s))) =
        filter (\<lambda>(wd, p). \<forall>r. (if names = [] then r \<in> snd ` set (name_to_rule s)
                                 else \<exists>n \<in> set names. map_of (name_to_rule s) n = Some r)
                               \<longrightarrow> wd \<notin> snd ` set (descriptors r))
          (watches (wm s))"
        using False unschedule_names_found [OF all, of "wm s"] by (simp add: unschedule_def)
    qed
  qed
  from missing found unschedule_frame [of names s] show ?thesis by blast
qed

theorem unschedule_removes_recorded_watches_witness:
  "[''q''] \<noteq> [] \<and> (\<exists>n \<in> set [''q'']. map_of (name_to_rule one_rule_observer) n = None) \<and>
   fst (unschedule [''q''] one_rule_observer) = Inl KeyError \<and>
   map_of (name_to_rule one_rule_observer) ''r'' \<noteq> None \<and>
   fst (unschedule [''r''] one_rule_observer) = Inr () \<and>
   watches (wm (snd (unschedule [''r''] one_rule_observer))) = [] \<and>
   fst (unschedule [] one_rule_observer) = Inr () \<and>
   watches (wm (snd (unschedule [] one_rule_observer))) = []"
proof -
  have q: "map_of (name_to_rule one_rule_observer) ''q'' = None"
    by (simp add: one_rule_observer_def)
  have r: "map_of (name_to_rule one_rule_observer) ''r'' \<noteq> None"
    by (simp add: one_rule_observer_def)
  have w: "watches (wm one_rule_observer) = [(1, ''/a'')]"
    and reg: "name_to_rule one_rule_observer
       = [(''r'', \<lparr>name = ''r'', notifier = 0, descriptors = [(''/a'', 1)]\<rparr>)]"
    by (simp_all add: one_rule_observer_def)
  show ?thesis
    using unschedule_removes_recorded_watches [of "[''q'']" one_rule_observer]
      unschedule_removes_recorded_watches [of "[''r'']" one_rule_observer]
      unschedule_removes_recorded_watches [of "[]" one_rule_observer] q r
    by (simp add: w reg)
qed








end
